theory Spec2Isabelle
  imports Main
begin

text \<open>
  The author search pipeline of \<open>scopus-author-search-by-au-name-and-subject-area.ts\<close>:
  input lines are normalized into query records, each record is fetched from the cache or the
  search gateway, and the fetch results are teed into the archive sink and into the candidate
  selector, whose rows the tabular emitter writes. Streams are lists in stream order; the
  file system and the gateway are functions handed to the stage that calls them.
\<close>

section \<open>JavaScript strings\<close>

text \<open>
  Strings are lists of characters, the characters being the code points below 256.
  \<open>String.prototype.trim\<close> removes white space and line terminators from both ends;
  among these characters they are tab, line feed, vertical tab, form feed, carriage return,
  space and the no-break space.
\<close>

definition isSpace :: "char \<Rightarrow> bool" where
  "isSpace c = (c \<in> set [CHR 0x09, CHR 0x0A, CHR 0x0B, CHR 0x0C, CHR 0x0D, CHR 0x20, CHR 0xA0])"

definition trim :: "string \<Rightarrow> string" where
  "trim s = rev (dropWhile isSpace (rev (dropWhile isSpace s)))"

text \<open>
  \<open>s.split(sep)\<close> for a one-character separator: the pieces between the separators, so a
  string without the separator (the empty string too) gives exactly one piece.
\<close>

fun split :: "char \<Rightarrow> string \<Rightarrow> string list" where
  "split sep [] = [[]]"
| "split sep (c # cs) =
     (if c = sep then [] # split sep cs
      else (case split sep cs of [] \<Rightarrow> [[c]] | p # ps \<Rightarrow> (c # p) # ps))"

text \<open>\<open>s.split(sep, limit)\<close> truncates the list of pieces to \<open>limit\<close> entries.\<close>

definition splitLimit :: "char \<Rightarrow> nat \<Rightarrow> string \<Rightarrow> string list" where
  "splitLimit sep limit s = take limit (split sep s)"

definition replaceAll :: "char \<Rightarrow> char \<Rightarrow> string \<Rightarrow> string" where
  "replaceAll a b s = map (\<lambda>c. if c = a then b else c) s"

definition padStart :: "nat \<Rightarrow> char \<Rightarrow> string \<Rightarrow> string" where
  "padStart n c s = replicate (n - length s) c @ s"

text \<open>Array destructuring and indexing: a position past the end reads \<open>undefined\<close>.\<close>

fun nth_opt :: "'a list \<Rightarrow> nat \<Rightarrow> 'a option" where
  "nth_opt [] n = None"
| "nth_opt (x # xs) 0 = Some x"
| "nth_opt (x # xs) (Suc n) = nth_opt xs n"

text \<open>A template literal renders \<open>undefined\<close> as the word itself.\<close>

fun tmpl :: "string option \<Rightarrow> string" where
  "tmpl None = ''undefined''"
| "tmpl (Some s) = s"

text \<open>The decimal rendering of a counter, \<open>`${count}`\<close>.\<close>

definition digit :: "nat \<Rightarrow> char" where
  "digit d = ''0123456789'' ! d"

fun showNat :: "nat \<Rightarrow> string" where
  "showNat n = (if n < 10 then [digit n] else showNat (n div 10) @ [digit (n mod 10)])"

declare showNat.simps [simp del]

section \<open>Query Normalizer\<close>

text \<open>
  The record built at the end of the line mapper. \<open>name\<close> is a string (a method is called
  on it); the other fields come out of array destructuring and are \<open>undefined\<close> (\<open>None\<close>)
  when the array is too short.
\<close>

record QueryRecord =
  lastName :: "string option"
  firstName :: "string option"
  subjectArea :: "string option"
  ind :: "string option"
  nPub :: "string option"
  name :: string
  index :: string

datatype jsError = JsTypeError

text \<open>
  The body of the mapper for the line \<open>v\<close> when the counter is \<open>count\<close>. Calling
  \<open>split\<close> on an undefined \<open>name\<close> would throw a \<open>TypeError\<close>.
\<close>

definition normalize :: "nat \<Rightarrow> string \<Rightarrow> jsError + QueryRecord" where
  "normalize count v =
     (let cols = map trim (split (CHR 0x09) v) in
      case nth_opt cols 0 of
        None \<Rightarrow> Inl JsTypeError
      | Some nm \<Rightarrow>
          (let ns = map trim (splitLimit (CHR '','') 2 nm) in
           Inr \<lparr> lastName = nth_opt ns 0, firstName = nth_opt ns 1,
                 subjectArea = nth_opt cols 1, ind = nth_opt cols 2, nPub = nth_opt cols 3,
                 name = nm, index = padStart 5 (CHR '' '') (showNat count) \<rparr>))"

text \<open>
  The input stream: every line is trimmed, blank lines are dropped, and the counter,
  starting at 1, advances once per line that reaches the mapper. A throw in the mapper
  errors the stream.
\<close>

fun normalizeFrom :: "nat \<Rightarrow> string list \<Rightarrow> jsError + QueryRecord list" where
  "normalizeFrom count [] = Inr []"
| "normalizeFrom count (v # vs) =
     (case normalize count v of
        Inl e \<Rightarrow> Inl e
      | Inr q \<Rightarrow> (case normalizeFrom (Suc count) vs of
                    Inl e \<Rightarrow> Inl e
                  | Inr qs \<Rightarrow> Inr (q # qs)))"

definition inputStream :: "string list \<Rightarrow> jsError + QueryRecord list" where
  "inputStream lines = normalizeFrom 1 (filter (\<lambda>v. v \<noteq> []) (map trim lines))"

section \<open>Paths\<close>

definition getFileName :: "string \<Rightarrow> string" where
  "getFileName nm = ''au-name-'' @ replaceAll (CHR '' '') (CHR ''_'') nm @ ''.json''"

definition configName :: string where
  "configName = ''top200-08-mahidol-university-energy-with-id-20241205''"

definition outputDir :: string where
  "outputDir = ''./target/output/'' @ configName"

definition catchDir :: string where
  "catchDir = outputDir"

definition getCache :: "string \<Rightarrow> string" where
  "getCache nm = catchDir @ ''/'' @ getFileName nm"

definition getOuput :: "string \<Rightarrow> string" where
  "getOuput nm = outputDir @ ''/'' @ getFileName nm"

section \<open>Search responses\<close>

text \<open>
  Modelled from the spec: the declarations \<open>ScopusSearchResponseBody\<close> and
  \<open>ScopusAuthorSearchEntry\<close> of \<open>elsevier-types\<close> are not part of the sources at hand.
  The fields are the ones the pipeline reads. \<open>document_count\<close> and \<open>totalResults\<close> hold
  the numbers that the unary plus of the source reads from them (the spec gives both as
  integer counts).
\<close>

record PreferredName =
  given_name :: string
  surname :: string
  initials :: string

record ScopusAuthorSearchEntry =
  dc_identifier :: string
  preferred_name :: PreferredName
  document_count :: int

record ScopusSearchResponseBody =
  totalResults :: int
  entry :: "ScopusAuthorSearchEntry list"

section \<open>Fetch Stage\<close>

text \<open>
  What a \<open>catch\<close> clause can receive: an \<open>Error\<close> instance with its message and cause
  (\<open>None\<close> when it has none), or any other value, kept as its string rendering.
\<close>

datatype thrown =
  ErrorObj (err_message: string) (err_cause: "string option")
| NonError (rendering: string)

text \<open>
  The cause object attached by the outer \<open>catch\<close>. The key \<open>error\<close> is only there when
  an \<open>Error\<close> instance was caught (\<open>cause_error = Some c\<close>, with \<open>c\<close> the cause of the
  caught error).
\<close>

record errorCause =
  cause_query :: string
  cause_error :: "string option option"
  cause_origin :: thrown

record wrappedError =
  message :: string
  cause :: errorCause

text \<open>
  The two object shapes returned by the fetch mapper: \<open>type: 'result'\<close> with a response
  body, and \<open>type: 'error'\<close> with an \<open>Error\<close> body. Both carry the fields of the query
  record and \<open>isCached\<close>.
\<close>

datatype FetchResult =
  Result (fields: QueryRecord) (isCached: bool) (response: ScopusSearchResponseBody)
| Error (fields: QueryRecord) (isCached: bool) (error: wrappedError)

fun truthy :: "string option \<Rightarrow> bool" where
  "truthy None = False"
| "truthy (Some s) = (s \<noteq> [])"

definition buildQuery :: "QueryRecord \<Rightarrow> string" where
  "buildQuery q =
     (if truthy (firstName q)
      then ''AUTHLASTNAME('' @ tmpl (lastName q) @ '') AND AUTHFIRST('' @ tmpl (firstName q)
             @ '') AND SUBJAREA('' @ tmpl (subjectArea q) @ '')''
      else ''AUTHLASTNAME('' @ tmpl (lastName q) @ '') AND SUBJAREA('' @ tmpl (subjectArea q)
             @ '')'')"

fun wrapError :: "string \<Rightarrow> thrown \<Rightarrow> wrappedError" where
  "wrapError query (ErrorObj m c) =
     \<lparr> message = m,
       cause = \<lparr> cause_query = query, cause_error = Some c, cause_origin = ErrorObj m c \<rparr> \<rparr>"
| "wrapError query (NonError v) =
     \<lparr> message = v,
       cause = \<lparr> cause_query = query, cause_error = None, cause_origin = NonError v \<rparr> \<rparr>"

text \<open>
  The inner block: read and parse the cache file; when that throws, whatever it throws,
  clear \<open>isCached\<close> and call the gateway. \<open>readCache path\<close> stands for
  \<open>JSON.parse(await Deno.readTextFile(path))\<close> and \<open>search query\<close> for the gateway
  call; both either throw (\<open>Inl\<close>) or return a body.
\<close>

definition loadBody ::
  "(string \<Rightarrow> thrown + ScopusSearchResponseBody) \<Rightarrow> (string \<Rightarrow> thrown + ScopusSearchResponseBody)
   \<Rightarrow> string \<Rightarrow> string \<Rightarrow> thrown + (bool \<times> ScopusSearchResponseBody)" where
  "loadBody readCache search nm query =
     (case readCache (getCache nm) of
        Inr b \<Rightarrow> Inr (True, b)
      | Inl _ \<Rightarrow> (case search query of
                    Inr b \<Rightarrow> Inr (False, b)
                  | Inl e \<Rightarrow> Inl e))"

text \<open>The outer \<open>try\<close> block: everything thrown inside it reaches the \<open>catch\<close>.\<close>

definition tryFetch ::
  "(string \<Rightarrow> thrown + ScopusSearchResponseBody) \<Rightarrow> (string \<Rightarrow> thrown + ScopusSearchResponseBody)
   \<Rightarrow> QueryRecord \<Rightarrow> string \<Rightarrow> thrown + (bool \<times> ScopusSearchResponseBody)" where
  "tryFetch readCache search q query =
     (if name q = [] then Inl (ErrorObj ''The name is empty'' None)
      else loadBody readCache search (name q) query)"

definition fetch ::
  "(string \<Rightarrow> thrown + ScopusSearchResponseBody) \<Rightarrow> (string \<Rightarrow> thrown + ScopusSearchResponseBody)
   \<Rightarrow> QueryRecord \<Rightarrow> FetchResult" where
  "fetch readCache search q =
     (let query = buildQuery q in
      case tryFetch readCache search q query of
        Inr (c, b) \<Rightarrow> Result q c b
      | Inl err \<Rightarrow> Error q False (wrapError query err))"

section \<open>Tee and Archive Sink\<close>


text \<open>What the sink hands to \<open>JSON.stringify\<close>.\<close>

datatype archived =
  ArchivedError string string errorCause
| ArchivedBody ScopusSearchResponseBody

fun toArchive :: "FetchResult \<Rightarrow> archived" where
  "toArchive (Error q c e) = ArchivedError ''Error'' (message e) (cause e)"
| "toArchive (Result q c b) = ArchivedBody b"

fun isError :: "FetchResult \<Rightarrow> bool" where
  "isError (Error q c e) = True"
| "isError (Result q c b) = False"

text \<open>
  The path handed to \<open>Deno.open\<close>: the output path of the prefix followed by the file
  id.
\<close>

definition archivePath :: "FetchResult \<Rightarrow> string" where
  "archivePath r =
     (let nm = name (fields r); inx = index (fields r);
          indexPrefix = ''inx'' @ replaceAll (CHR '' '') (CHR ''0'') inx;
          fileId = (if nm = [] then indexPrefix else nm);
          prefix = (if isError r then ''error-'' @ indexPrefix @ ''-'' else [])
      in getOuput (prefix @ fileId))"

text \<open>
  One call of the sink's \<open>write\<close>. \<open>jsonStringify\<close> is the pretty-printing serialiser.
  \<open>openFile path\<close> stands for \<open>Deno.open\<close> with \<open>create\<close> and \<open>write\<close>, which is
  rejected with an error (\<open>Some\<close>) or gives the file; \<open>fileWrite path data\<close> stands for
  \<open>fpOut.write\<close> on that file, which is rejected (\<open>Inl\<close>) or resolves to the number of
  bytes it wrote. Neither call is inside a \<open>try\<close>, so a rejection leaves \<open>write\<close> as
  its error. The outcome is the list of writes that took place, each with its path and the
  bytes written, and the error thrown, if any. A file that the open created is not counted
  as a write.
\<close>

definition archiveWrite ::
  "(string \<Rightarrow> thrown option) \<Rightarrow> (string \<Rightarrow> string \<Rightarrow> thrown + nat) \<Rightarrow> (archived \<Rightarrow> string)
   \<Rightarrow> FetchResult \<Rightarrow> (string \<times> string) list \<times> thrown option" where
  "archiveWrite openFile fileWrite jsonStringify r =
     (let nm = name (fields r) in
      if isCached r \<and> getCache nm = getOuput nm then ([], None)
      else
        (let dataArray = jsonStringify (toArchive r);
             path = archivePath r
         in case openFile path of
              Some e \<Rightarrow> ([], Some e)
            | None \<Rightarrow>
                (case fileWrite path dataArray of
                   Inl e \<Rightarrow> ([], Some e)
                 | Inr n \<Rightarrow> ([(path, take n dataArray)], None))))"


section \<open>Candidate Selector\<close>

text \<open>
  The stream filter in front of the selector, which also narrows the type: what passes is
  a result object, of which the selector reads the query fields and the body.
\<close>

fun resultFilter :: "FetchResult list \<Rightarrow> (QueryRecord \<times> ScopusSearchResponseBody) list" where
  "resultFilter [] = []"
| "resultFilter (Result q c b # rs) =
     (if 0 < totalResults b then (q, b) # resultFilter rs else resultFilter rs)"
| "resultFilter (Error q c e # rs) = resultFilter rs"

text \<open>\<open>entry['dc:identifier'].split(':')[1]\<close>, which is \<open>undefined\<close> without a colon.\<close>

definition entryId :: "ScopusAuthorSearchEntry \<Rightarrow> string option" where
  "entryId e = nth_opt (split (CHR '':'') (dc_identifier e)) 1"

text \<open>The comparator handed to \<open>sort\<close>.\<close>

definition compareDocCount :: "ScopusAuthorSearchEntry \<Rightarrow> ScopusAuthorSearchEntry \<Rightarrow> int" where
  "compareDocCount pre next =
     (let docCountPre = document_count pre; docCountNext = document_count next in
      if docCountPre > docCountNext then - 1
      else if docCountPre < docCountNext then 1
      else 0)"

text \<open>
  \<open>Array.prototype.sort\<close> is a stable sort: an element moves in front of another exactly
  when the comparator puts it strictly first. Insertion from the right gives that order.
\<close>

fun insertBy :: "('a \<Rightarrow> 'a \<Rightarrow> int) \<Rightarrow> 'a \<Rightarrow> 'a list \<Rightarrow> 'a list" where
  "insertBy cmp x [] = [x]"
| "insertBy cmp x (y # ys) = (if cmp x y \<le> 0 then x # y # ys else y # insertBy cmp x ys)"

definition sortBy :: "('a \<Rightarrow> 'a \<Rightarrow> int) \<Rightarrow> 'a list \<Rightarrow> 'a list" where
  "sortBy cmp xs = foldr (insertBy cmp) xs []"

definition sortedEntries ::
  "string option set \<Rightarrow> ScopusSearchResponseBody \<Rightarrow> ScopusAuthorSearchEntry list" where
  "sortedEntries idSet b =
     sortBy compareDocCount (filter (\<lambda>e. entryId e \<notin> idSet) (entry b))"

definition nameMatch :: "QueryRecord \<Rightarrow> ScopusAuthorSearchEntry \<Rightarrow> bool" where
  "nameMatch q e =
     (Some (surname (preferred_name e)) = lastName q \<and>
      (\<not> truthy (firstName q) \<or> Some (initials (preferred_name e)) = firstName q))"

definition selectEntry ::
  "string option set \<Rightarrow> QueryRecord \<Rightarrow> ScopusSearchResponseBody \<Rightarrow> ScopusAuthorSearchEntry option" where
  "selectEntry idSet q b =
     (let s = sortedEntries idSet b in
      case find (nameMatch q) s of
        Some e \<Rightarrow> Some e
      | None \<Rightarrow> nth_opt s 0)"

text \<open>Values of the output row: strings, numbers and \<open>undefined\<close>.\<close>

datatype jsval = JUndefined | JStr string | JNum int

fun ofOpt :: "string option \<Rightarrow> jsval" where
  "ofOpt None = JUndefined"
| "ofOpt (Some s) = JStr s"

text \<open>The output object, as the list of its keys in insertion order with their values.\<close>

type_synonym ResolvedAuthor = "(string \<times> jsval) list"

definition resolvedAuthor :: "QueryRecord \<Rightarrow> ScopusAuthorSearchEntry \<Rightarrow> ResolvedAuthor" where
  "resolvedAuthor q result =
     (let id = entryId result;
          preferredName = preferred_name result;
          documentCount = document_count result
      in [(''id'', ofOpt id),
          (''name'', JStr (name q)),
          (''ind'', ofOpt (ind q)),
          (''given-name'', JStr (given_name preferredName)),
          (''surname'', JStr (surname preferredName)),
          (''initials'', JStr (initials preferredName)),
          (''number-of-publications'', ofOpt (nPub q)),
          (''searching-subject-area'', ofOpt (subjectArea q)),
          (''document-count'', JNum documentCount),
          (''lastName'', ofOpt (lastName q)),
          (''firstName'', ofOpt (firstName q)),
          (''index'', JStr (index q))])"

text \<open>One call of the selector's mapper: the rows emitted and the new \<open>idSet\<close>.\<close>

definition selectorStep ::
  "string option set \<Rightarrow> QueryRecord \<times> ScopusSearchResponseBody
   \<Rightarrow> ResolvedAuthor list \<times> string option set" where
  "selectorStep idSet x =
     (case selectEntry idSet (fst x) (snd x) of
        None \<Rightarrow> ([], idSet)
      | Some result \<Rightarrow> ([resolvedAuthor (fst x) result], insert (entryId result) idSet))"

fun selectorRun ::
  "string option set \<Rightarrow> (QueryRecord \<times> ScopusSearchResponseBody) list
   \<Rightarrow> ResolvedAuthor list \<times> string option set" where
  "selectorRun idSet [] = ([], idSet)"
| "selectorRun idSet (x # xs) =
     (let (out, idSet') = selectorStep idSet x;
          (outs, idSet'') = selectorRun idSet' xs
      in (out @ outs, idSet''))"

definition resultsAuthorStream :: "FetchResult list \<Rightarrow> ResolvedAuthor list" where
  "resultsAuthorStream rs = fst (selectorRun {} (resultFilter rs))"

definition externalId :: "ResolvedAuthor \<Rightarrow> jsval option" where
  "externalId row = map_of row ''id''"

section \<open>Tabular Emitter\<close>

text \<open>
  \<open>stringify\<close> is the CSV encoder applied to a list of rows. \<open>rowValues\<close> reads an object
  at the given columns, as the encoder does under its \<open>columns\<close> option.
\<close>

definition rowValues :: "string list \<Rightarrow> ResolvedAuthor \<Rightarrow> jsval list" where
  "rowValues columns row =
     map (\<lambda>c. case map_of row c of None \<Rightarrow> JUndefined | Some v \<Rightarrow> v) columns"

definition emitStep ::
  "(jsval list list \<Rightarrow> string) \<Rightarrow> string list option \<Rightarrow> ResolvedAuthor
   \<Rightarrow> string list \<times> string list option" where
  "emitStep stringify columns row =
     (case columns of
        None \<Rightarrow>
          (let cols = map fst row in
           ([stringify [map JStr cols], stringify [rowValues cols row]], Some cols))
      | Some cols \<Rightarrow> ([stringify [rowValues cols row]], Some cols))"

fun emitRun ::
  "(jsval list list \<Rightarrow> string) \<Rightarrow> string list option \<Rightarrow> ResolvedAuthor list \<Rightarrow> string list" where
  "emitRun stringify columns [] = []"
| "emitRun stringify columns (row # rows) =
     (let (out, columns') = emitStep stringify columns row
      in out @ emitRun stringify columns' rows)"

definition resultsAuthor :: "(jsval list list \<Rightarrow> string) \<Rightarrow> FetchResult list \<Rightarrow> string list" where
  "resultsAuthor stringify rs = emitRun stringify None (resultsAuthorStream rs)"

section \<open>Example data\<close>

text \<open>
  The input lines and the response of the examples: the line \<open>Smith, J\<close> with its three
  further columns, the same line with the initial written \<open>J.\<close>, and the two candidates
  \<open>A1\<close> and \<open>A2\<close>.
\<close>

definition tabChar :: char where
  "tabChar = CHR 0x09"

definition lineSmithJ :: string where
  "lineSmithJ = ''Smith, J'' @ [tabChar] @ ''ENGI'' @ [tabChar] @ ''1'' @ [tabChar] @ ''50''"

definition lineSmithJdot :: string where
  "lineSmithJdot = ''Smith, J.'' @ [tabChar] @ ''ENGI'' @ [tabChar] @ ''1'' @ [tabChar] @ ''50''"

definition smithJ :: QueryRecord where
  "smithJ = \<lparr> lastName = Some ''Smith'', firstName = Some ''J'', subjectArea = Some ''ENGI'',
              ind = Some ''1'', nPub = Some ''50'', name = ''Smith, J'', index = ''    1'' \<rparr>"

definition smithJdot :: QueryRecord where
  "smithJdot = \<lparr> lastName = Some ''Smith'', firstName = Some ''J.'', subjectArea = Some ''ENGI'',
                 ind = Some ''1'', nPub = Some ''50'', name = ''Smith, J.'', index = ''    1'' \<rparr>"

definition candA1 :: ScopusAuthorSearchEntry where
  "candA1 = \<lparr> dc_identifier = ''AUTHOR_ID:A1'',
              preferred_name = \<lparr> given_name = ''John'', surname = ''Smith'', initials = ''J.'' \<rparr>,
              document_count = 3 \<rparr>"

definition candA2 :: ScopusAuthorSearchEntry where
  "candA2 = \<lparr> dc_identifier = ''AUTHOR_ID:A2'',
              preferred_name = \<lparr> given_name = ''Karl'', surname = ''Smith'', initials = ''K.'' \<rparr>,
              document_count = 9 \<rparr>"

definition bodyA1A2 :: ScopusSearchResponseBody where
  "bodyA1A2 = \<lparr> totalResults = 2, entry = [candA1, candA2] \<rparr>"

definition smithOnly :: QueryRecord where
  "smithOnly = \<lparr> lastName = Some ''Smith'', firstName = Some ''J'', subjectArea = None,
                 ind = None, nPub = None, name = ''Smith, J'', index = ''    1'' \<rparr>"

text \<open>The record of the line \<open>error-x, J\<close>, first of its input.\<close>

definition errorX :: QueryRecord where
  "errorX = \<lparr> lastName = Some ''error-x'', firstName = Some ''J'', subjectArea = None,
              ind = None, nPub = None, name = ''error-x, J'', index = ''    1'' \<rparr>"

text \<open>A record without a name.\<close>

definition emptyName :: QueryRecord where
  "emptyName = \<lparr> lastName = Some [], firstName = None, subjectArea = None,
              ind = None, nPub = None, name = [], index = ''    1'' \<rparr>"

definition bodyA2 :: ScopusSearchResponseBody where
  "bodyA2 = \<lparr> totalResults = 1, entry = [candA2] \<rparr>"

definition bodyEmpty :: ScopusSearchResponseBody where
  "bodyEmpty = \<lparr> totalResults = 0, entry = [] \<rparr>"

text \<open>A cache read that finds no file, and gateways that fail and that answer.\<close>

definition noCache :: "string \<Rightarrow> thrown + ScopusSearchResponseBody" where
  "noCache path = Inl (ErrorObj ''No such file or directory'' None)"

definition failingSearch :: "string \<Rightarrow> thrown + ScopusSearchResponseBody" where
  "failingSearch query = Inl (ErrorObj ''Quota Exceeded'' None)"

definition answeringSearch :: "string \<Rightarrow> thrown + ScopusSearchResponseBody" where
  "answeringSearch query = Inr bodyA1A2"

text \<open>
  A file system whose output directory has no subdirectory: an open is rejected when the part
  of the path below the output directory contains a slash. Every write writes all its bytes.
\<close>

definition openFlat :: "string \<Rightarrow> thrown option" where
  "openFlat path =
     (if CHR ''/'' \<in> set (drop (length outputDir + 1) path)
      then Some (ErrorObj ''No such file or directory'' None) else None)"

definition writeAll :: "string \<Rightarrow> string \<Rightarrow> thrown + nat" where
  "writeAll path dataArray = Inr (length dataArray)"


text \<open>
  Three records with the same name, second and third of which have \<open>A2\<close> as the candidate
  ranked first in their own response, and a third candidate \<open>A3\<close>.
\<close>

definition smithJ2 :: QueryRecord where
  "smithJ2 = smithJ \<lparr> index := ''    2'' \<rparr>"

definition smithJ3 :: QueryRecord where
  "smithJ3 = smithJ \<lparr> index := ''    3'' \<rparr>"

definition candA3 :: ScopusAuthorSearchEntry where
  "candA3 = \<lparr> dc_identifier = ''AUTHOR_ID:A3'',
              preferred_name = \<lparr> given_name = ''Lena'', surname = ''Smith'', initials = ''L.'' \<rparr>,
              document_count = 1 \<rparr>"

definition bodyA2A3 :: ScopusSearchResponseBody where
  "bodyA2A3 = \<lparr> totalResults = 2, entry = [candA2, candA3] \<rparr>"

definition runShared :: "FetchResult list" where
  "runShared = [Result smithJ False bodyA2, Result smithJ2 False bodyA1A2,
                Result smithJ3 False bodyA2A3]"

text \<open>Stand-ins for the two serialisers.\<close>

fun showArchived :: "archived \<Rightarrow> string" where
  "showArchived (ArchivedError n m c) = n @ '': '' @ m"
| "showArchived (ArchivedBody b) = ''body''"

definition showRows :: "jsval list list \<Rightarrow> string" where
  "showRows rows = replicate (length (concat rows)) (CHR '','')"

text \<open>Three fetch results with the same response: the second and third come from the cache.\<close>

definition runA1A2 :: "FetchResult list" where
  "runA1A2 = [Result smithJ False bodyA1A2, Result smithJ True bodyA1A2,
              Result smithJ True bodyA1A2]"

section \<open>Properties\<close>

subsection \<open>Strings and lists\<close>

lemma split_nonempty: "split sep s \<noteq> []"
  by (induction s) (auto split: list.splits)

subsection \<open>Sorting and selection\<close>

lemma insertBy_compareDocCount:
  "insertBy compareDocCount x ys = insort_key (\<lambda>e. - document_count e) x ys"
  by (induction ys) (auto simp: compareDocCount_def Let_def)

lemma sortBy_compareDocCount:
  "sortBy compareDocCount xs = sort_key (\<lambda>e. - document_count e) xs"
  by (induction xs) (simp_all add: sortBy_def insertBy_compareDocCount)

lemma set_sortedEntries:
  "set (sortedEntries idSet b) = {e \<in> set (entry b). entryId e \<notin> idSet}"
  by (simp add: sortedEntries_def sortBy_compareDocCount)

lemma sorted_sortedEntries:
  "sorted (map (\<lambda>e. - document_count e) (sortedEntries idSet b))"
  by (simp add: sortedEntries_def sortBy_compareDocCount)

lemma stable_sortedEntries:
  "filter (\<lambda>e. document_count e = k) (sortedEntries idSet b) =
   filter (\<lambda>e. document_count e = k) (filter (\<lambda>e. entryId e \<notin> idSet) (entry b))"
proof -
  have "filter (\<lambda>e. - document_count e = - k) (sort_key (\<lambda>e. - document_count e) xs)
      = filter (\<lambda>e. - document_count e = - k) xs" for xs :: "ScopusAuthorSearchEntry list"
    by (rule sort_key_stable)
  then show ?thesis
    by (simp add: sortedEntries_def sortBy_compareDocCount)
qed

lemma nth_opt_eq: "nth_opt xs n = (if n < length xs then Some (xs ! n) else None)"
  by (induction xs n rule: nth_opt.induct) simp_all

lemma selectEntry_mem:
  "selectEntry idSet q b = Some e \<Longrightarrow> e \<in> set (sortedEntries idSet b)"
  by (auto simp: selectEntry_def Let_def nth_opt_eq find_Some_iff split: option.splits if_splits)

lemma selectEntry_unclaimed:
  "selectEntry idSet q b = Some e \<Longrightarrow> e \<in> set (entry b) \<and> entryId e \<notin> idSet"
  using selectEntry_mem [of idSet q b e] by (simp add: set_sortedEntries)

lemma selectEntry_None:
  "selectEntry idSet q b = None \<longleftrightarrow> (\<forall>e \<in> set (entry b). entryId e \<in> idSet)"
proof -
  have "selectEntry idSet q b = None \<longleftrightarrow> sortedEntries idSet b = []"
    by (cases "sortedEntries idSet b") (auto simp: selectEntry_def Let_def split: option.splits)
  also have "\<dots> \<longleftrightarrow> set (sortedEntries idSet b) = {}" by simp
  also have "\<dots> \<longleftrightarrow> (\<forall>e \<in> set (entry b). entryId e \<in> idSet)"
    unfolding set_sortedEntries by blast
  finally show ?thesis .
qed

lemma find_first_index:
  "\<exists>x \<in> set xs. P x \<Longrightarrow>
   \<exists>i < length xs. find P xs = Some (xs ! i) \<and> P (xs ! i) \<and> (\<forall>j < i. \<not> P (xs ! j))"
proof -
  assume "\<exists>x \<in> set xs. P x"
  then have "find P xs \<noteq> None" by (auto simp: find_None_iff)
  then obtain x where "find P xs = Some x" by blast
  then show ?thesis by (auto simp: find_Some_iff)
qed

lemma sorted_desc_sortedEntries:
  "sorted_wrt (\<lambda>x y. document_count y \<le> document_count x) (sortedEntries idSet b)"
  using sorted_sortedEntries [of idSet b] by (simp add: sorted_map)

subsection \<open>Claims about the Candidate Selector\<close>

text \<open>
  C3. The list the selector searches is the response's candidates without the ids already
  claimed, in descending order of document count, candidates of equal count keeping their
  order in the response. A candidate matches the name when its
  preferred surname is the query's \<open>lastName\<close> and, if the query has a (non-empty)
  \<open>firstName\<close>, its preferred initials are that \<open>firstName\<close>. When some candidate of
  the list matches, the selection is the first matching one, whatever the document counts of
  the candidates in front of it; when none matches, the selection is the head of the list.
\<close>

theorem selector_name_match_first:
  "sorted_wrt (\<lambda>x y. document_count y \<le> document_count x) (sortedEntries idSet b) \<and>
   set (sortedEntries idSet b) = {e \<in> set (entry b). entryId e \<notin> idSet} \<and>
   (\<forall>k. filter (\<lambda>e. document_count e = k) (sortedEntries idSet b) =
        filter (\<lambda>e. document_count e = k) (filter (\<lambda>e. entryId e \<notin> idSet) (entry b))) \<and>
   (nameMatch q e \<longleftrightarrow>
      Some (surname (preferred_name e)) = lastName q \<and>
      (truthy (firstName q) \<longrightarrow> Some (initials (preferred_name e)) = firstName q)) \<and>
   ((\<exists>m \<in> set (sortedEntries idSet b). nameMatch q m) \<longrightarrow>
      (\<exists>i < length (sortedEntries idSet b).
         selectEntry idSet q b = Some (sortedEntries idSet b ! i) \<and>
         nameMatch q (sortedEntries idSet b ! i) \<and>
         (\<forall>j < i. \<not> nameMatch q (sortedEntries idSet b ! j)))) \<and>
   ((\<forall>m \<in> set (sortedEntries idSet b). \<not> nameMatch q m) \<longrightarrow>
      selectEntry idSet q b = nth_opt (sortedEntries idSet b) 0)"
proof (intro conjI impI)
  show "sorted_wrt (\<lambda>x y. document_count y \<le> document_count x) (sortedEntries idSet b)"
    by (rule sorted_desc_sortedEntries)
  show "set (sortedEntries idSet b) = {e \<in> set (entry b). entryId e \<notin> idSet}"
    by (rule set_sortedEntries)
  show "\<forall>k. filter (\<lambda>e. document_count e = k) (sortedEntries idSet b) =
        filter (\<lambda>e. document_count e = k) (filter (\<lambda>e. entryId e \<notin> idSet) (entry b))"
    using stable_sortedEntries by blast
  show "nameMatch q e \<longleftrightarrow>
      Some (surname (preferred_name e)) = lastName q \<and>
      (truthy (firstName q) \<longrightarrow> Some (initials (preferred_name e)) = firstName q)"
    by (auto simp: nameMatch_def)
next
  assume "\<exists>m \<in> set (sortedEntries idSet b). nameMatch q m"
  from find_first_index [OF this]
  show "\<exists>i < length (sortedEntries idSet b).
         selectEntry idSet q b = Some (sortedEntries idSet b ! i) \<and>
         nameMatch q (sortedEntries idSet b ! i) \<and>
         (\<forall>j < i. \<not> nameMatch q (sortedEntries idSet b ! j))"
    by (auto simp: selectEntry_def Let_def)
next
  assume "\<forall>m \<in> set (sortedEntries idSet b). \<not> nameMatch q m"
  then have "find (nameMatch q) (sortedEntries idSet b) = None"
    by (simp add: find_None_iff)
  then show "selectEntry idSet q b = nth_opt (sortedEntries idSet b) 0"
    by (simp add: selectEntry_def Let_def)
qed

theorem selector_name_match_first_witness:
  "sortedEntries {} bodyA1A2 = [candA2, candA1] \<and>
   nameMatch smithJdot candA1 \<and>
   (\<exists>i < length (sortedEntries {} bodyA1A2).
      selectEntry {} smithJdot bodyA1A2 = Some (sortedEntries {} bodyA1A2 ! i) \<and>
      nameMatch smithJdot (sortedEntries {} bodyA1A2 ! i) \<and>
      (\<forall>j < i. \<not> nameMatch smithJdot (sortedEntries {} bodyA1A2 ! j))) \<and>
   \<not> nameMatch smithJ candA2 \<and> \<not> nameMatch smithJ candA1 \<and>
   selectEntry {} smithJ bodyA1A2 = nth_opt (sortedEntries {} bodyA1A2) 0"
proof -
  have s: "sortedEntries {} bodyA1A2 = [candA2, candA1]"
    by code_simp
  have m: "nameMatch smithJdot candA1" "\<not> nameMatch smithJ candA2" "\<not> nameMatch smithJ candA1"
    by code_simp+
  have h1: "\<exists>m \<in> set (sortedEntries {} bodyA1A2). nameMatch smithJdot m"
    using s m by simp
  have h2: "\<forall>m \<in> set (sortedEntries {} bodyA1A2). \<not> nameMatch smithJ m"
    using s m by simp
  from h1 h2 selector_name_match_first [of "{}" bodyA1A2 smithJdot candA1]
    selector_name_match_first [of "{}" bodyA1A2 smithJ candA1]
  have "(\<exists>i < length (sortedEntries {} bodyA1A2).
      selectEntry {} smithJdot bodyA1A2 = Some (sortedEntries {} bodyA1A2 ! i) \<and>
      nameMatch smithJdot (sortedEntries {} bodyA1A2 ! i) \<and>
      (\<forall>j < i. \<not> nameMatch smithJdot (sortedEntries {} bodyA1A2 ! j)))"
    and "selectEntry {} smithJ bodyA1A2 = nth_opt (sortedEntries {} bodyA1A2) 0"
    by blast+
  with s m show ?thesis by blast
qed

lemma inj_ofOpt: "ofOpt a = ofOpt b \<Longrightarrow> a = b"
  by (cases a; cases b) simp_all

lemma externalId_resolvedAuthor: "externalId (resolvedAuthor q e) = Some (ofOpt (entryId e))"
  by (simp add: externalId_def resolvedAuthor_def Let_def)

lemma distinct_map_ofOpt: "distinct (map (\<lambda>i. Some (ofOpt i)) ids) = distinct ids"
  by (simp add: distinct_map inj_on_def inj_ofOpt)

text \<open>
  The invariant of a run of the selector from any state: the ids of the rows emitted, in
  order, are pairwise different, none of them was in the state at the start, and the final
  state is the initial one with these ids added.
\<close>

lemma selectorRun_ids:
  "selectorRun idSet xs = (outs, idSet') \<Longrightarrow>
   \<exists>ids. map externalId outs = map (\<lambda>i. Some (ofOpt i)) ids \<and> distinct ids \<and>
         set ids \<inter> idSet = {} \<and> idSet' = idSet \<union> set ids"
proof (induction xs arbitrary: idSet outs idSet')
  case Nil
  then show ?case by simp
next
  case (Cons x xs)
  obtain out S1 where step: "selectorStep idSet x = (out, S1)"
    by (cases "selectorStep idSet x")
  obtain rest S2 where run: "selectorRun S1 xs = (rest, S2)"
    by (cases "selectorRun S1 xs")
  from Cons.prems step run have outs: "outs = out @ rest" and fin: "idSet' = S2"
    by simp_all
  from Cons.IH [OF run] obtain ids where
    ids: "map externalId rest = map (\<lambda>i. Some (ofOpt i)) ids" "distinct ids"
         "set ids \<inter> S1 = {}" "S2 = S1 \<union> set ids"
    by blast
  show ?case
  proof (cases "selectEntry idSet (fst x) (snd x)")
    case None
    with step have "out = []" "S1 = idSet" by (simp_all add: selectorStep_def)
    with ids outs fin show ?thesis by auto
  next
    case (Some e)
    with step have o: "out = [resolvedAuthor (fst x) e]" and s1: "S1 = insert (entryId e) idSet"
      by (simp_all add: selectorStep_def)
    from Some have fresh: "entryId e \<notin> idSet"
      using selectEntry_unclaimed by blast
    have "map externalId outs = map (\<lambda>i. Some (ofOpt i)) (entryId e # ids)"
      using outs o ids(1) by (simp add: externalId_resolvedAuthor)
    moreover have "distinct (entryId e # ids)"
      using ids(2,3) s1 by auto
    moreover have "set (entryId e # ids) \<inter> idSet = {}"
      using ids(3) s1 fresh by auto
    moreover have "idSet' = idSet \<union> set (entryId e # ids)"
      using fin ids(4) s1 by auto
    ultimately show ?thesis by blast
  qed
qed

lemma selectorRun_distinct: "distinct (map externalId (fst (selectorRun idSet xs)))"
proof -
  obtain outs S where r: "selectorRun idSet xs = (outs, S)"
    by (cases "selectorRun idSet xs")
  from selectorRun_ids [OF r] obtain ids where
    "map externalId outs = map (\<lambda>i. Some (ofOpt i)) ids" "distinct ids"
    by blast
  then show ?thesis using r by (simp add: distinct_map_ofOpt)
qed

text \<open>
  C1. Over a whole run, which starts with an empty \<open>idSet\<close>, and over a run of the selector
  from any \<open>idSet\<close>, no two emitted rows carry the same \<open>id\<close>.
\<close>

theorem emitted_ids_distinct:
  "distinct (map externalId (resultsAuthorStream rs)) \<and>
   distinct (map externalId (fst (selectorRun idSet xs)))"
  by (simp add: resultsAuthorStream_def selectorRun_distinct)

theorem emitted_ids_distinct_witness:
  "map externalId (resultsAuthorStream runA1A2) = [Some (JStr ''A2''), Some (JStr ''A1'')] \<and>
   distinct (map externalId (resultsAuthorStream runA1A2))"
proof -
  have a: "map externalId (resultsAuthorStream runA1A2) = [Some (JStr ''A2''), Some (JStr ''A1'')]"
    by code_simp
  from emitted_ids_distinct [of runA1A2 "{}" "[]"]
  have b: "distinct (map externalId (resultsAuthorStream runA1A2))"
    by (rule conjunct1)
  from a b show ?thesis by (rule conjI)
qed

lemma find_sorted_max:
  assumes "sorted_wrt (\<lambda>x y. f y \<le> (f x :: int)) xs" and "find P xs = Some e"
    and "m \<in> set xs" and "P m"
  shows "f m \<le> f e"
proof -
  from assms(2) obtain i where i: "i < length xs" "xs ! i = e" "\<forall>j<i. \<not> P (xs ! j)"
    by (auto simp: find_Some_iff)
  from assms(3) obtain k where k: "k < length xs" "xs ! k = m"
    by (auto simp: in_set_conv_nth)
  with i(3) assms(4) have "i \<le> k" by (meson not_le_imp_less)
  show ?thesis
  proof (cases "i = k")
    case True
    with i k show ?thesis by simp
  next
    case False
    with \<open>i \<le> k\<close> have "i < k" by simp
    with assms(1) k(1) have "f (xs ! k) \<le> f (xs ! i)"
      by (simp add: sorted_wrt_iff_nth_less)
    with i k show ?thesis by simp
  qed
qed

lemma head_sorted_max:
  assumes "sorted_wrt (\<lambda>x y. f y \<le> (f x :: int)) xs" and "nth_opt xs 0 = Some e"
    and "m \<in> set xs"
  shows "f m \<le> f e"
  using assms by (cases xs) auto

text \<open>
  What a selection is, in terms of the response: an unclaimed candidate that either matches
  the name and has the highest document count of the unclaimed matching candidates, or, when
  no unclaimed candidate matches, has the highest document count of the unclaimed ones.
\<close>

lemma selectEntry_best:
  assumes "selectEntry idSet q b = Some e"
  shows "(nameMatch q e \<and>
          (\<forall>m \<in> set (entry b). entryId m \<notin> idSet \<and> nameMatch q m \<longrightarrow>
             document_count m \<le> document_count e)) \<or>
         ((\<forall>m \<in> set (entry b). entryId m \<notin> idSet \<longrightarrow> \<not> nameMatch q m) \<and>
          (\<forall>m \<in> set (entry b). entryId m \<notin> idSet \<longrightarrow>
             document_count m \<le> document_count e))"
proof (cases "find (nameMatch q) (sortedEntries idSet b)")
  case None
  with assms have hd: "nth_opt (sortedEntries idSet b) 0 = Some e"
    by (simp add: selectEntry_def Let_def)
  from None have "\<forall>m \<in> set (sortedEntries idSet b). \<not> nameMatch q m"
    by (simp add: find_None_iff)
  moreover have "\<forall>m \<in> set (sortedEntries idSet b). document_count m \<le> document_count e"
    using head_sorted_max [OF sorted_desc_sortedEntries hd] by blast
  ultimately show ?thesis by (simp add: set_sortedEntries)
next
  case (Some e')
  with assms have e: "e' = e" by (simp add: selectEntry_def Let_def)
  with Some have f: "find (nameMatch q) (sortedEntries idSet b) = Some e" by simp
  then have "nameMatch q e" by (auto simp: find_Some_iff)
  moreover have "\<forall>m \<in> set (sortedEntries idSet b). nameMatch q m \<longrightarrow>
     document_count m \<le> document_count e"
    using find_sorted_max [OF sorted_desc_sortedEntries f] by blast
  ultimately show ?thesis by (simp add: set_sortedEntries)
qed

lemma selectorRun_append:
  "selectorRun idSet (xs @ ys) =
     (fst (selectorRun idSet xs) @ fst (selectorRun (snd (selectorRun idSet xs)) ys),
      snd (selectorRun (snd (selectorRun idSet xs)) ys))"
  by (induction xs arbitrary: idSet) (simp_all add: split_beta)

lemma selectorRun_mono: "idSet \<subseteq> snd (selectorRun idSet xs)"
  using selectorRun_ids [of idSet xs "fst (selectorRun idSet xs)" "snd (selectorRun idSet xs)"]
  by auto


text \<open>
  C2, as stated, fails. In a run of three records, the candidate ranked first in the response
  of the second and of the third record is \<open>A2\<close>, which the first record has claimed. The
  earlier of the two, the second record, does not claim \<open>A2\<close>: it emits \<open>A1\<close>, and the
  third emits \<open>A3\<close>.
\<close>

theorem shared_best_already_claimed_counterexample:
  "selectEntry {} smithJ2 bodyA1A2 = Some candA2 \<and>
   selectEntry {} smithJ3 bodyA2A3 = Some candA2 \<and>
   resultsAuthorStream runShared =
     [resolvedAuthor smithJ candA2, resolvedAuthor smithJ2 candA1, resolvedAuthor smithJ3 candA3] \<and>
   map externalId (resultsAuthorStream runShared) =
     [Some (JStr ''A2''), Some (JStr ''A1''), Some (JStr ''A3'')]"
  by code_simp

text \<open>
  C2, amended. Two records whose selection among the candidates unclaimed when the earlier
  one is processed carries the same id, the first processed at that \<open>idSet\<close> and the second
  after it, with any records in between. The earlier record emits its row for that id, and
  the id is in the \<open>idSet\<close> when the later record arrives, so the later record does not
  select that candidate. It emits nothing exactly when every candidate of its response is
  claimed by then; otherwise it emits one row for an unclaimed candidate: a name-matching one
  with the highest document count among the unclaimed matching candidates, or, when no
  unclaimed candidate matches, one with the highest document count among the unclaimed
  candidates. A candidate whose id was claimed before the earlier record is selected by
  neither of the two.
\<close>

theorem earlier_record_claims_shared_id:
  assumes best1: "selectEntry idSet q1 b1 = Some e1"
    and best2: "selectEntry idSet q2 b2 = Some e2"
    and same: "entryId e2 = entryId e1"
    and run: "selectorRun idSet ((q1, b1) # mid) = (outs, idSet2)"
  shows "(\<exists>rest. outs = resolvedAuthor q1 e1 # rest) \<and>
         entryId e1 \<in> idSet2 \<and>
         selectEntry idSet2 q2 b2 \<noteq> Some e2 \<and>
         (\<forall>e. entryId e \<in> idSet \<longrightarrow>
            selectEntry idSet q1 b1 \<noteq> Some e \<and> selectEntry idSet2 q2 b2 \<noteq> Some e) \<and>
         selectorRun idSet ((q1, b1) # mid @ [(q2, b2)]) =
           (outs @ fst (selectorStep idSet2 (q2, b2)), snd (selectorStep idSet2 (q2, b2))) \<and>
         (selectEntry idSet2 q2 b2 = None \<longleftrightarrow> (\<forall>m \<in> set (entry b2). entryId m \<in> idSet2)) \<and>
         (selectEntry idSet2 q2 b2 = None \<longrightarrow> fst (selectorStep idSet2 (q2, b2)) = []) \<and>
         (\<forall>e. selectEntry idSet2 q2 b2 = Some e \<longrightarrow>
            fst (selectorStep idSet2 (q2, b2)) = [resolvedAuthor q2 e] \<and>
            e \<in> set (entry b2) \<and> entryId e \<notin> idSet2 \<and> entryId e \<noteq> entryId e1 \<and>
            ((nameMatch q2 e \<and>
              (\<forall>m \<in> set (entry b2). entryId m \<notin> idSet2 \<and> nameMatch q2 m \<longrightarrow>
                 document_count m \<le> document_count e)) \<or>
             ((\<forall>m \<in> set (entry b2). entryId m \<notin> idSet2 \<longrightarrow> \<not> nameMatch q2 m) \<and>
              (\<forall>m \<in> set (entry b2). entryId m \<notin> idSet2 \<longrightarrow>
                 document_count m \<le> document_count e))))"
proof -
  let ?S1 = "insert (entryId e1) idSet"
  from best1 have step1: "selectorStep idSet (q1, b1) = ([resolvedAuthor q1 e1], ?S1)"
    by (simp add: selectorStep_def)
  with run have outs: "outs = resolvedAuthor q1 e1 # fst (selectorRun ?S1 mid)"
    and s2: "idSet2 = snd (selectorRun ?S1 mid)"
    by (simp_all add: split_beta)
  have claimed: "entryId e1 \<in> idSet2"
    using selectorRun_mono [of ?S1 mid] s2 by blast
  have "selectorRun idSet (((q1, b1) # mid) @ [(q2, b2)]) =
          (outs @ fst (selectorStep idSet2 (q2, b2)), snd (selectorStep idSet2 (q2, b2)))"
    unfolding selectorRun_append run by (simp add: split_beta)
  then have whole: "selectorRun idSet ((q1, b1) # mid @ [(q2, b2)]) =
          (outs @ fst (selectorStep idSet2 (q2, b2)), snd (selectorStep idSet2 (q2, b2)))"
    by simp
  have none: "selectEntry idSet2 q2 b2 = None \<longrightarrow> fst (selectorStep idSet2 (q2, b2)) = []"
    by (simp add: selectorStep_def)
  have some: "fst (selectorStep idSet2 (q2, b2)) = [resolvedAuthor q2 e] \<and>
            e \<in> set (entry b2) \<and> entryId e \<notin> idSet2 \<and> entryId e \<noteq> entryId e1 \<and>
            ((nameMatch q2 e \<and>
              (\<forall>m \<in> set (entry b2). entryId m \<notin> idSet2 \<and> nameMatch q2 m \<longrightarrow>
                 document_count m \<le> document_count e)) \<or>
             ((\<forall>m \<in> set (entry b2). entryId m \<notin> idSet2 \<longrightarrow> \<not> nameMatch q2 m) \<and>
              (\<forall>m \<in> set (entry b2). entryId m \<notin> idSet2 \<longrightarrow>
                 document_count m \<le> document_count e)))"
    if sel: "selectEntry idSet2 q2 b2 = Some e" for e
  proof -
    from sel have "fst (selectorStep idSet2 (q2, b2)) = [resolvedAuthor q2 e]"
      by (simp add: selectorStep_def)
    moreover from selectEntry_unclaimed [OF sel]
    have u: "e \<in> set (entry b2)" "entryId e \<notin> idSet2" by simp_all
    moreover from u(2) claimed have "entryId e \<noteq> entryId e1" by auto
    moreover note selectEntry_best [OF sel]
    ultimately show ?thesis by blast
  qed
  have lost: "selectEntry idSet2 q2 b2 \<noteq> Some e2"
    using selectEntry_unclaimed [of idSet2 q2 b2 e2] claimed same by auto
  have sub: "idSet \<subseteq> idSet2"
    using selectorRun_mono [of idSet "(q1, b1) # mid"] run by simp
  have old: "selectEntry idSet q1 b1 \<noteq> Some e \<and> selectEntry idSet2 q2 b2 \<noteq> Some e"
    if "entryId e \<in> idSet" for e
    using that sub selectEntry_unclaimed [of idSet q1 b1 e] selectEntry_unclaimed [of idSet2 q2 b2 e]
    by auto
  from outs claimed lost old whole none some selectEntry_None [of idSet2 q2 b2]
  show ?thesis by blast
qed

theorem earlier_record_claims_shared_id_witness:
  "selectEntry {} smithJ bodyA1A2 = Some candA2 \<and>
   selectEntry {} smithJdot bodyA2 = Some candA2 \<and>
   selectorRun {} ((smithJ, bodyA1A2) # []) = ([resolvedAuthor smithJ candA2], {Some ''A2''}) \<and>
   selectEntry {Some ''A2''} smithJdot bodyA2 \<noteq> Some candA2 \<and>
   selectEntry {Some ''A2''} smithJdot bodyA2 = None \<and>
   fst (selectorStep {Some ''A2''} (smithJdot, bodyA2)) = [] \<and>
   selectEntry {Some ''A2''} smithJ bodyA1A2 = Some candA1 \<and>
   fst (selectorStep {Some ''A2''} (smithJ, bodyA1A2)) = [resolvedAuthor smithJ candA1] \<and>
   entryId candA1 \<noteq> entryId candA2"
proof -
  have h1: "selectEntry {} smithJ bodyA1A2 = Some candA2" by code_simp
  have h2: "selectEntry {} smithJdot bodyA2 = Some candA2" by code_simp
  have h3: "entryId candA2 = entryId candA2" by simp
  have h4: "selectorRun {} ((smithJ, bodyA1A2) # []) = ([resolvedAuthor smithJ candA2], {Some ''A2''})"
    by code_simp
  have dropped: "selectEntry {Some ''A2''} smithJdot bodyA2 = None" by code_simp
  have fallback: "selectEntry {Some ''A2''} smithJ bodyA1A2 = Some candA1" by code_simp
  from earlier_record_claims_shared_id [OF h1 h2 h3 h4] dropped
  have a: "selectEntry {Some ''A2''} smithJdot bodyA2 \<noteq> Some candA2"
    "fst (selectorStep {Some ''A2''} (smithJdot, bodyA2)) = []"
    by simp_all
  from earlier_record_claims_shared_id [OF h1 h1 h3 h4] fallback
  have b: "fst (selectorStep {Some ''A2''} (smithJ, bodyA1A2)) = [resolvedAuthor smithJ candA1]"
    "entryId candA1 \<noteq> entryId candA2"
    by simp_all
  from h1 h2 h4 dropped fallback a b show ?thesis by simp
qed

text \<open>
  C4, as stated, fails: the line \<open>Smith, J\<close> gives the first name \<open>J\<close>, the initials of
  \<open>A1\<close> are \<open>J.\<close>, and the selector compares the two strings for equality. No candidate
  matches the name, and the selection is not \<open>A1\<close>.
\<close>

theorem smithJ_selects_A1_counterexample:
  "normalize 1 lineSmithJ = Inr smithJ \<and>
   entryId candA1 = Some ''A1'' \<and> entryId candA2 = Some ''A2'' \<and>
   selectEntry {} smithJ bodyA1A2 \<noteq> Some candA1"
  by code_simp

text \<open>
  C4, amended. For the line \<open>Smith, J\<close> and the response with the candidates \<open>A1\<close>
  (initials \<open>J.\<close>, 3 documents) and \<open>A2\<close> (initials \<open>K.\<close>, 9 documents), with an empty
  \<open>idSet\<close>, the selector falls back to the highest document count and selects \<open>A2\<close>. For
  the line \<open>Smith, J.\<close>, whose first name is the initials of \<open>A1\<close>, it selects \<open>A1\<close>:
  there the name match wins over the higher document count.
\<close>

theorem smithJ_selects_A2:
  "normalize 1 lineSmithJ = Inr smithJ \<and>
   selectEntry {} smithJ bodyA1A2 = Some candA2 \<and>
   resultsAuthorStream [Result smithJ False bodyA1A2] = [resolvedAuthor smithJ candA2] \<and>
   normalize 1 lineSmithJdot = Inr smithJdot \<and>
   selectEntry {} smithJdot bodyA1A2 = Some candA1 \<and>
   resultsAuthorStream [Result smithJdot False bodyA1A2] = [resolvedAuthor smithJdot candA1] \<and>
   entryId candA1 = Some ''A1'' \<and> entryId candA2 = Some ''A2''"
  by code_simp

theorem smithJ_selects_A2_witness:
  "selectEntry {} smithJ bodyA1A2 = Some candA2 \<and> selectEntry {} smithJdot bodyA1A2 = Some candA1"
  using smithJ_selects_A2 by simp

subsection \<open>Claims about the Query Normalizer\<close>

lemma nth_opt_map: "nth_opt (map f xs) n = (if n < length xs then Some (f (xs ! n)) else None)"
  by (simp add: nth_opt_eq)

lemma splitLimit_nonempty: "0 < limit \<Longrightarrow> splitLimit sep limit s \<noteq> []"
  using split_nonempty [of sep s] by (simp add: splitLimit_def)

lemma normalize_Inr:
  "normalize count v =
     Inr \<lparr> lastName = nth_opt (map trim (splitLimit (CHR '','') 2 (trim (split (CHR 0x09) v ! 0)))) 0,
           firstName = nth_opt (map trim (splitLimit (CHR '','') 2 (trim (split (CHR 0x09) v ! 0)))) 1,
           subjectArea = nth_opt (map trim (split (CHR 0x09) v)) 1,
           ind = nth_opt (map trim (split (CHR 0x09) v)) 2,
           nPub = nth_opt (map trim (split (CHR 0x09) v)) 3,
           name = trim (split (CHR 0x09) v ! 0),
           index = padStart 5 (CHR '' '') (showNat count) \<rparr>"
proof -
  have "0 < length (split (CHR 0x09) v)"
    using split_nonempty [of "CHR 0x09" v] by simp
  then show ?thesis
    by (simp add: normalize_def Let_def nth_opt_map)
qed

lemma normalizeFrom_total:
  "\<exists>qs. normalizeFrom count vs = Inr qs \<and> length qs = length vs"
proof (induction vs arbitrary: count)
  case Nil
  then show ?case by simp
next
  case (Cons v vs)
  from Cons.IH [of "Suc count"] obtain qs where
    "normalizeFrom (Suc count) vs = Inr qs" "length qs = length vs" by blast
  then show ?case by (simp add: normalize_Inr)
qed

text \<open>
  C5, amended. The mapper returns a record for every line and every counter value, and the
  input stream returns one record per non-blank line: normalization never fails. In the
  record, \<open>name\<close> is the trimmed first column and \<open>lastName\<close> is a string; each of
  \<open>subjectArea\<close>, \<open>ind\<close> and \<open>nPub\<close> is the trimmed column at its position when the
  line has that column, and is \<open>undefined\<close> (not the empty string) when it has not.
\<close>

theorem normalize_missing_columns_undefined:
  "(\<exists>q. normalize count v = Inr q \<and>
        name q = trim (split (CHR 0x09) v ! 0) \<and>
        lastName q \<noteq> None \<and>
        subjectArea q =
          (if 1 < length (split (CHR 0x09) v) then Some (trim (split (CHR 0x09) v ! 1)) else None) \<and>
        ind q =
          (if 2 < length (split (CHR 0x09) v) then Some (trim (split (CHR 0x09) v ! 2)) else None) \<and>
        nPub q =
          (if 3 < length (split (CHR 0x09) v) then Some (trim (split (CHR 0x09) v ! 3)) else None)) \<and>
   (\<exists>qs. inputStream lines = Inr qs \<and>
         length qs = length (filter (\<lambda>v. v \<noteq> []) (map trim lines)))"
proof -
  have "nth_opt (map trim (splitLimit (CHR '','') 2 s)) 0 \<noteq> None" for s
    using splitLimit_nonempty [of 2 "CHR '',''" s] by (simp add: nth_opt_map)
  then have "\<exists>q. normalize count v = Inr q \<and>
        name q = trim (split (CHR 0x09) v ! 0) \<and>
        lastName q \<noteq> None \<and>
        subjectArea q =
          (if 1 < length (split (CHR 0x09) v) then Some (trim (split (CHR 0x09) v ! 1)) else None) \<and>
        ind q =
          (if 2 < length (split (CHR 0x09) v) then Some (trim (split (CHR 0x09) v ! 2)) else None) \<and>
        nPub q =
          (if 3 < length (split (CHR 0x09) v) then Some (trim (split (CHR 0x09) v ! 3)) else None)"
    by (simp add: normalize_Inr nth_opt_map)
  moreover have "\<exists>qs. inputStream lines = Inr qs \<and>
         length qs = length (filter (\<lambda>v. v \<noteq> []) (map trim lines))"
    unfolding inputStream_def by (rule normalizeFrom_total)
  ultimately show ?thesis by (rule conjI)
qed

text \<open>
  C5, as stated, fails: the line \<open>Smith, J\<close> has one column, and the three missing fields
  of its record are \<open>undefined\<close>, not empty strings.
\<close>

theorem normalize_missing_columns_counterexample:
  "length (split (CHR 0x09) ''Smith, J'') < 4 \<and>
   normalize 1 ''Smith, J'' = Inr smithOnly \<and>
   subjectArea smithOnly \<noteq> Some [] \<and> ind smithOnly \<noteq> Some [] \<and> nPub smithOnly \<noteq> Some []"
  by code_simp

theorem normalize_missing_columns_undefined_witness:
  "normalize 1 ''Smith, J'' = Inr smithOnly \<and>
   (\<exists>q. normalize 1 ''Smith, J'' = Inr q \<and> subjectArea q = None \<and> ind q = None \<and> nPub q = None) \<and>
   (\<exists>qs. inputStream [''Smith, J'', ''  '', ''Doe''] = Inr qs \<and> length qs = 2)"
proof -
  have a: "normalize 1 ''Smith, J'' = Inr smithOnly" by code_simp
  have l: "length (split (CHR 0x09) ''Smith, J'') = 1" by code_simp
  have f: "length (filter (\<lambda>v. v \<noteq> []) (map trim [''Smith, J'', ''  '', ''Doe''])) = 2" by code_simp
  from normalize_missing_columns_undefined [of 1 "''Smith, J''" "[''Smith, J'', ''  '', ''Doe'']"] a l f
  show ?thesis by simp
qed

subsection \<open>Claims about the Archive Sink\<close>

lemma getCache_eq_getOuput: "getCache nm = getOuput nm"
  by (simp add: getCache_def getOuput_def catchDir_def)

lemma archiveWrite_cached: "isCached r \<Longrightarrow> archiveWrite op wr js r = ([], None)"
  by (simp add: archiveWrite_def Let_def getCache_eq_getOuput)

lemma archiveWrite_open_rejected:
  "\<not> isCached r \<Longrightarrow> op (archivePath r) = Some e \<Longrightarrow> archiveWrite op wr js r = ([], Some e)"
  by (simp add: archiveWrite_def Let_def)

lemma archiveWrite_write_rejected:
  "\<not> isCached r \<Longrightarrow> op (archivePath r) = None \<Longrightarrow>
   wr (archivePath r) (js (toArchive r)) = Inl e \<Longrightarrow> archiveWrite op wr js r = ([], Some e)"
  by (simp add: archiveWrite_def Let_def)

lemma archiveWrite_written:
  "\<not> isCached r \<Longrightarrow> op (archivePath r) = None \<Longrightarrow>
   wr (archivePath r) (js (toArchive r)) = Inr n \<Longrightarrow>
   archiveWrite op wr js r = ([(archivePath r, take n (js (toArchive r)))], None)"
  by (simp add: archiveWrite_def Let_def)










lemma digit_not_space: "d < 10 \<Longrightarrow> CHR '' '' \<noteq> digit d"
proof -
  assume "d < 10"
  then have "d \<in> {0, 1, 2, 3, 4, 5, 6, 7, 8, 9}" by auto
  then show ?thesis by (auto simp: digit_def)
qed

lemma showNat_no_space: "CHR '' '' \<notin> set (showNat n)"
proof (induction n rule: showNat.induct)
  case (1 n)
  show ?case
  proof (cases "n < 10")
    case True
    then show ?thesis by (simp add: showNat.simps [of n] digit_not_space)
  next
    case False
    with "1" have "CHR '' '' \<notin> set (showNat (n div 10))" by simp
    moreover have "CHR '' '' \<noteq> digit (n mod 10)" by (simp add: digit_not_space)
    ultimately show ?thesis using False by (simp add: showNat.simps [of n])
  qed
qed

lemma replaceAll_absent: "a \<notin> set s \<Longrightarrow> replaceAll a b s = s"
  by (induction s) (auto simp: replaceAll_def)

lemma replaceAll_append: "replaceAll a b (s @ t) = replaceAll a b s @ replaceAll a b t"
  by (simp add: replaceAll_def)

lemma replaceAll_replicate: "replaceAll a b (replicate n a) = replicate n b"
  by (simp add: replaceAll_def)

lemma zero_padded_index:
  "replaceAll (CHR '' '') (CHR ''0'') (padStart 5 (CHR '' '') (showNat n)) =
   replicate (5 - length (showNat n)) (CHR ''0'') @ showNat n"
  by (simp add: padStart_def replaceAll_append replaceAll_replicate replaceAll_absent
      showNat_no_space)

lemma archiveWrite_path:
  "fst (archiveWrite op wr js r) \<noteq> [] \<Longrightarrow>
   map fst (fst (archiveWrite op wr js r)) = [archivePath r]"
  by (cases "isCached r"; cases "op (archivePath r)"; cases "wr (archivePath r) (js (toArchive r))")
    (simp_all add: archiveWrite_cached archiveWrite_open_rejected archiveWrite_write_rejected
      archiveWrite_written)

text \<open>
  C9, amended. When the sink writes a result whose index is the padded counter value of the
  normalizer, the file is \<open>au-name-<id>.json\<close> in the output directory, where the id is
  a prefix followed by a file id, with every space replaced by an underscore. The file id is
  the name when the name is not empty, and \<open>inx\<close> with the counter zero-padded to five
  digits when it is. The prefix is \<open>error-inx\<close>, the zero-padded counter and a hyphen
  when the result is an error, and empty when it is not.
\<close>

theorem archive_file_name:
  assumes "fst (archiveWrite op wr js r) \<noteq> []"
    and "index (fields r) = padStart 5 (CHR '' '') (showNat count)"
  shows "map fst (fst (archiveWrite op wr js r)) =
     [outputDir @ ''/au-name-'' @
      replaceAll (CHR '' '') (CHR ''_'')
        ((if isError r
          then ''error-inx'' @ replicate (5 - length (showNat count)) (CHR ''0'') @ showNat count @ ''-''
          else []) @
         (if name (fields r) = []
          then ''inx'' @ replicate (5 - length (showNat count)) (CHR ''0'') @ showNat count
          else name (fields r))) @
      ''.json'']"
proof -
  from assms(1) have "map fst (fst (archiveWrite op wr js r)) = [archivePath r]"
    by (rule archiveWrite_path)
  then show ?thesis
    by (simp add: archivePath_def Let_def getOuput_def getFileName_def assms(2) zero_padded_index)
qed

text \<open>
  C9, as stated, fails. The failed fetch of the first record, \<open>Smith, J\<close>, is written to
  \<open>au-name-error-inx00001-Smith,_J.json\<close>: between \<open>error-\<close> and the name stands the
  index, so the file is not the one named \<open>error-\<close> followed by the name. And the successful
  fetch of a record named \<open>error-x, J\<close> is written to a file whose id starts with
  \<open>error-\<close> although the result is no failure.
\<close>

theorem archive_file_name_counterexample:
  "normalize 1 lineSmithJ = Inr smithJ \<and>
   fetch noCache failingSearch smithJ =
     Error smithJ False (wrapError (buildQuery smithJ) (ErrorObj ''Quota Exceeded'' None)) \<and>
   map fst (fst (archiveWrite openFlat writeAll showArchived (fetch noCache failingSearch smithJ))) =
     [outputDir @ ''/au-name-error-inx00001-Smith,_J.json''] \<and>
   map fst (fst (archiveWrite openFlat writeAll showArchived (fetch noCache failingSearch smithJ))) \<noteq>
     [getOuput (''error-'' @ name smithJ)] \<and>
   normalize 1 ''error-x, J'' = Inr errorX \<and>
   \<not> isError (Result errorX False bodyA1A2) \<and>
   map fst (fst (archiveWrite openFlat writeAll showArchived (Result errorX False bodyA1A2))) =
     [outputDir @ ''/au-name-'' @ ''error-'' @ ''x,_J.json'']"
  by code_simp

theorem archive_file_name_witness:
  "fst (archiveWrite openFlat writeAll showArchived (fetch noCache failingSearch smithJ)) \<noteq> [] \<and>
   index (fields (fetch noCache failingSearch smithJ)) = padStart 5 (CHR '' '') (showNat 1) \<and>
   map fst (fst (archiveWrite openFlat writeAll showArchived (fetch noCache failingSearch smithJ))) =
     [outputDir @ ''/au-name-error-inx00001-Smith,_J.json'']"
proof -
  have a: "fst (archiveWrite openFlat writeAll showArchived (fetch noCache failingSearch smithJ)) \<noteq> []"
    by code_simp
  have b: "index (fields (fetch noCache failingSearch smithJ)) = padStart 5 (CHR '' '') (showNat 1)"
    by code_simp
  have c: "isError (fetch noCache failingSearch smithJ)"
    "name (fields (fetch noCache failingSearch smithJ)) = ''Smith, J''" "showNat 1 = ''1''"
    by code_simp+
  from archive_file_name [OF a b] a b c show ?thesis
    by (simp add: replaceAll_def eval_nat_numeral)
qed

subsection \<open>Claims about the Fetch Stage\<close>

lemma fetch_empty_name:
  "name q = [] \<Longrightarrow>
   fetch readCache search q =
     Error q False (wrapError (buildQuery q) (ErrorObj ''The name is empty'' None))"
  by (simp add: fetch_def tryFetch_def)

lemma fetch_cached:
  "name q \<noteq> [] \<Longrightarrow> readCache (getCache (name q)) = Inr b \<Longrightarrow>
   fetch readCache search q = Result q True b"
  by (simp add: fetch_def tryFetch_def loadBody_def)

lemma fetch_searched:
  "name q \<noteq> [] \<Longrightarrow> readCache (getCache (name q)) = Inl x \<Longrightarrow>
   search (buildQuery q) = Inr b \<Longrightarrow>
   fetch readCache search q = Result q False b"
  by (simp add: fetch_def tryFetch_def loadBody_def)

lemma fetch_search_failed:
  "name q \<noteq> [] \<Longrightarrow> readCache (getCache (name q)) = Inl x \<Longrightarrow>
   search (buildQuery q) = Inl err \<Longrightarrow>
   fetch readCache search q = Error q False (wrapError (buildQuery q) err)"
  by (simp add: fetch_def tryFetch_def loadBody_def)

lemma wrapError_cause:
  "cause_query (cause (wrapError query err)) = query \<and>
   cause_origin (cause (wrapError query err)) = err"
  by (cases err) simp_all

lemma fetch_error_not_cached:
  "isError (fetch readCache search q) \<Longrightarrow> \<not> isCached (fetch readCache search q)"
  by (auto simp: fetch_def Let_def split: sum.splits prod.splits)

lemma fetch_fields: "fields (fetch readCache search q) = q"
  by (auto simp: fetch_def Let_def split: sum.splits prod.splits)

text \<open>
  C7, amended. The fetch of a record always returns a result object for that record. An
  empty name, and a gateway call that throws after a cache miss, give an error object that is
  not cached and whose body is the thrown error wrapped with a cause holding the query string
  and the error itself. A cache read that throws is not turned into an error object: it is
  a cache miss, followed by the gateway call, whose answer gives a result object that is not
  cached. A cache read that succeeds gives a cached result object. Every error object the
  fetch returns is not cached.
\<close>

theorem fetch_errors_become_failures:
  "fields (fetch readCache search q) = q \<and>
   (name q = [] \<longrightarrow>
      fetch readCache search q =
        Error q False (wrapError (buildQuery q) (ErrorObj ''The name is empty'' None))) \<and>
   (name q \<noteq> [] \<and> readCache (getCache (name q)) = Inr b \<longrightarrow>
      fetch readCache search q = Result q True b) \<and>
   (name q \<noteq> [] \<and> readCache (getCache (name q)) = Inl x \<and> search (buildQuery q) = Inr b \<longrightarrow>
      fetch readCache search q = Result q False b) \<and>
   (name q \<noteq> [] \<and> readCache (getCache (name q)) = Inl x \<and> search (buildQuery q) = Inl err \<longrightarrow>
      fetch readCache search q = Error q False (wrapError (buildQuery q) err)) \<and>
   cause_query (cause (wrapError (buildQuery q) err)) = buildQuery q \<and>
   cause_origin (cause (wrapError (buildQuery q) err)) = err \<and>
   (isError (fetch readCache search q) \<longrightarrow> \<not> isCached (fetch readCache search q))"
  by (auto simp: fetch_fields fetch_empty_name fetch_cached fetch_searched fetch_search_failed
      wrapError_cause dest: fetch_error_not_cached)

text \<open>
  C7, as stated, fails: for the record \<open>Smith, J\<close> the cache read throws, the gateway
  answers, and the fetch returns a result object, not an error object.
\<close>

theorem fetch_errors_become_failures_counterexample:
  "noCache (getCache (name smithJ)) = Inl (ErrorObj ''No such file or directory'' None) \<and>
   fetch noCache answeringSearch smithJ = Result smithJ False bodyA1A2 \<and>
   \<not> isError (fetch noCache answeringSearch smithJ)"
  by code_simp

theorem fetch_errors_become_failures_witness:
  "name smithJ \<noteq> [] \<and>
   noCache (getCache (name smithJ)) = Inl (ErrorObj ''No such file or directory'' None) \<and>
   failingSearch (buildQuery smithJ) = Inl (ErrorObj ''Quota Exceeded'' None) \<and>
   fetch noCache failingSearch smithJ =
     Error smithJ False (wrapError (buildQuery smithJ) (ErrorObj ''Quota Exceeded'' None)) \<and>
   isError (fetch noCache failingSearch smithJ) \<and>
   \<not> isCached (fetch noCache failingSearch smithJ) \<and>
   name emptyName = [] \<and>
   fetch noCache answeringSearch emptyName =
     Error emptyName False (wrapError (buildQuery emptyName) (ErrorObj ''The name is empty'' None)) \<and>
   answeringSearch (buildQuery smithJ) = Inr bodyA1A2 \<and>
   fetch noCache answeringSearch smithJ = Result smithJ False bodyA1A2 \<and>
   fetch answeringSearch failingSearch smithJ = Result smithJ True bodyA1A2"
proof -
  have h: "name smithJ \<noteq> []" "name emptyName = []"
    "noCache (getCache (name smithJ)) = Inl (ErrorObj ''No such file or directory'' None)"
    "failingSearch (buildQuery smithJ) = Inl (ErrorObj ''Quota Exceeded'' None)"
    "answeringSearch (buildQuery smithJ) = Inr bodyA1A2"
    "answeringSearch (getCache (name smithJ)) = Inr bodyA1A2"
    "isError (fetch noCache failingSearch smithJ)"
    by code_simp+
  note t = fetch_errors_become_failures
  from h t [of noCache failingSearch smithJ bodyA1A2 "ErrorObj ''No such file or directory'' None"
             "ErrorObj ''Quota Exceeded'' None"]
    t [of noCache answeringSearch emptyName bodyA1A2 "ErrorObj ''No such file or directory'' None"
             "ErrorObj ''Quota Exceeded'' None"]
    t [of noCache answeringSearch smithJ bodyA1A2 "ErrorObj ''No such file or directory'' None"
             "ErrorObj ''Quota Exceeded'' None"]
    t [of answeringSearch failingSearch smithJ bodyA1A2 "ErrorObj ''No such file or directory'' None"
             "ErrorObj ''Quota Exceeded'' None"]
  show ?thesis by simp
qed

subsection \<open>Claims about the Tabular Emitter\<close>

lemma emitRun_Some:
  "emitRun stringify (Some cols) rows = map (\<lambda>r. stringify [rowValues cols r]) rows"
  by (induction rows) (simp_all add: emitStep_def)

lemma keys_resolvedAuthor:
  "map fst (resolvedAuthor q e) =
     [''id'', ''name'', ''ind'', ''given-name'', ''surname'', ''initials'',
      ''number-of-publications'', ''searching-subject-area'', ''document-count'',
      ''lastName'', ''firstName'', ''index'']"
  by (simp add: resolvedAuthor_def Let_def)

text \<open>
  C8. With no columns fixed yet, the emitter writes nothing for no rows. For a first row and
  the rows after it, it writes the header made of the keys of the first row in their order,
  then the first row's values, then for every later row only its values, read at the columns
  of the first row. Every row the selector builds has the same twelve keys in the same order.
  A run whose selector emits no row writes nothing to the result file.
\<close>

theorem emitter_header_once:
  "emitRun stringify None [] = [] \<and>
   emitRun stringify None (row # rows) =
     stringify [map JStr (map fst row)] # stringify [rowValues (map fst row) row] #
     map (\<lambda>r. stringify [rowValues (map fst row) r]) rows \<and>
   map fst (resolvedAuthor q e) =
     [''id'', ''name'', ''ind'', ''given-name'', ''surname'', ''initials'',
      ''number-of-publications'', ''searching-subject-area'', ''document-count'',
      ''lastName'', ''firstName'', ''index''] \<and>
   (resultsAuthorStream rs = [] \<longrightarrow> resultsAuthor stringify rs = [])"
  by (simp add: emitRun_Some emitStep_def Let_def keys_resolvedAuthor resultsAuthor_def)

theorem emitter_header_once_witness:
  "resultsAuthorStream [Result smithJ False bodyEmpty] = [] \<and>
   resultsAuthor showRows [Result smithJ False bodyEmpty] = [] \<and>
   resultsAuthor showRows runA1A2 =
     [showRows [map JStr (map fst (resolvedAuthor smithJ candA2))],
      showRows [rowValues (map fst (resolvedAuthor smithJ candA2)) (resolvedAuthor smithJ candA2)],
      showRows [rowValues (map fst (resolvedAuthor smithJ candA2)) (resolvedAuthor smithJ candA1)]]"
proof -
  have a: "resultsAuthorStream [Result smithJ False bodyEmpty] = []" by code_simp
  have b: "resultsAuthorStream runA1A2 = [resolvedAuthor smithJ candA2, resolvedAuthor smithJ candA1]"
    by code_simp
  note t = emitter_header_once [of showRows "resolvedAuthor smithJ candA2"
      "[resolvedAuthor smithJ candA1]" smithJ candA2 "[Result smithJ False bodyEmpty]"]
  from a t have c: "resultsAuthor showRows [Result smithJ False bodyEmpty] = []"
    by blast
  from t have "emitRun showRows None [resolvedAuthor smithJ candA2, resolvedAuthor smithJ candA1] =
     showRows [map JStr (map fst (resolvedAuthor smithJ candA2))] #
     showRows [rowValues (map fst (resolvedAuthor smithJ candA2)) (resolvedAuthor smithJ candA2)] #
     map (\<lambda>r. showRows [rowValues (map fst (resolvedAuthor smithJ candA2)) r])
       [resolvedAuthor smithJ candA1]"
    by blast
  then have d: "emitRun showRows None [resolvedAuthor smithJ candA2, resolvedAuthor smithJ candA1] =
     [showRows [map JStr (map fst (resolvedAuthor smithJ candA2))],
      showRows [rowValues (map fst (resolvedAuthor smithJ candA2)) (resolvedAuthor smithJ candA2)],
      showRows [rowValues (map fst (resolvedAuthor smithJ candA2)) (resolvedAuthor smithJ candA1)]]"
    by (simp only: list.map)
  have e: "resultsAuthor showRows runA1A2 =
      emitRun showRows None (resultsAuthorStream runA1A2)"
    by (simp add: resultsAuthor_def)
  from a c d show ?thesis unfolding e b by blast
qed

subsection \<open>Claims about the two branches\<close>







end
